theory Spec2Isabelle
  imports Main "HOL-Library.Sublist"
begin

section \<open>Push board: the worker (workers.py)\<close>

text \<open>
  Exceptions of the Python code are values.  \<open>DeviceError\<close> stands for whatever the
  external \<open>GenericHandler\<close> raises (its constructor, \<open>send_config_set\<close>,
  \<open>save_config\<close>, \<open>close\<close>); \<open>OSError\<close> for a file that cannot be written.
  Logging and the emission of a signal are taken not to raise.  An operation of the
  form or of the list that raises is \<open>Inl\<close> of the exception: the model says
  what a call returns, not what a call that raised has left behind.
\<close>

datatype error =
  IndexError | KeyError | AttributeError | ValueError | OSError | DeviceError

text \<open>
  \<open>Form.session\<close> is \<open>kwargs.get("session")\<close>: a dictionary of strings, or
  \<open>None\<close>.
\<close>

type_synonym session = "(string \<rightharpoonup> string) option"

record proxy =
  hostname :: string
  username :: string
  password :: string

text \<open>
  A \<open>PushWorker\<close> as \<open>__init__\<close> builds it.  The fields carry the prefix
  \<open>w_\<close> since a task has a target, a config and a save flag of its own.
\<close>

record worker =
  w_target :: string
  w_config :: string
  w_save :: bool
  w_session :: session
  abort_requested :: bool

definition PushWorker :: "string \<Rightarrow> string \<Rightarrow> bool \<Rightarrow> session \<Rightarrow> worker" where
  "PushWorker tgt cfg sv sess =
     \<lparr>w_target = tgt, w_config = cfg, w_save = sv, w_session = sess,
      abort_requested = False\<rparr>"

text \<open>\<open>PushWorker.abort\<close>: only sets the flag (the log line is not modelled).\<close>

definition abort :: "worker \<Rightarrow> worker" where
  "abort w = w\<lparr>abort_requested := True\<rparr>"

text \<open>
  What a run does that can be observed from outside: the statuses it emits on
  \<open>status_signal\<close>, its log lines, and the calls it makes on the handler.  A call
  is recorded when it is made, whether it returns or raises.
\<close>

datatype event =
  Emit string
  | Log_info string
  | Log_exception
  | Connect string string string "proxy option"
  | Send_config_set string
  | Save_config
  | Close

text \<open>
  The world a run meets.  Each external call either returns or raises; a run is
  parametrised by which.  \<open>abort_at\<close> is the moment the GUI thread calls
  \<open>abort\<close>, counted in checkpoints the worker has already read: \<open>Some 0\<close> is
  before the first read of \<open>_abort_requested\<close>, \<open>Some 3\<close> after the last,
  \<open>None\<close> is never.
\<close>

record world =
  connect_ok :: bool
  send_ok :: bool
  save_ok :: bool
  close_ok :: bool
  abort_at :: "nat option"

text \<open>The value of \<open>self._abort_requested\<close> read at checkpoint \<open>k\<close> (0, 1, 2).\<close>

definition flag_at :: "worker \<Rightarrow> world \<Rightarrow> nat \<Rightarrow> bool" where
  "flag_at w d k =
     abort_requested
       (case abort_at d of
          None \<Rightarrow> w
        | Some n \<Rightarrow> if n \<le> k then abort w else w)"

text \<open>\<open>self.session.get(key)\<close>: \<open>AttributeError\<close> on \<open>None\<close>.\<close>

definition session_get :: "session \<Rightarrow> string \<Rightarrow> error + string option" where
  "session_get sess key =
     (case sess of None \<Rightarrow> Inl AttributeError | Some m \<Rightarrow> Inr (m key))"

text \<open>\<open>self.session[key]\<close>: \<open>KeyError\<close> on a missing key.\<close>

definition session_item :: "session \<Rightarrow> string \<Rightarrow> error + string" where
  "session_item sess key =
     (case sess of
        None \<Rightarrow> Inl AttributeError
      | Some m \<Rightarrow> (case m key of None \<Rightarrow> Inl KeyError | Some v \<Rightarrow> Inr v))"

text \<open>
  Lines 28 to 34 of \<open>run\<close>: the proxy is built when \<open>JUMPHOST_IP\<close> is present
  and not empty.
\<close>

definition build_proxy :: "session \<Rightarrow> error + proxy option" where
  "build_proxy sess =
     (case session_get sess ''JUMPHOST_IP'' of
        Inl e \<Rightarrow> Inl e
      | Inr None \<Rightarrow> Inr None
      | Inr (Some ip) \<Rightarrow>
          if ip = [] then Inr None
          else
            (case session_item sess ''JUMPHOST_IP'' of
               Inl e \<Rightarrow> Inl e
             | Inr h \<Rightarrow>
                 (case session_item sess ''JUMPHOST_USERNAME'' of
                    Inl e \<Rightarrow> Inl e
                  | Inr u \<Rightarrow>
                      (case session_item sess ''JUMPHOST_PASSWORD'' of
                         Inl e \<Rightarrow> Inl e
                       | Inr p \<Rightarrow>
                           Inr (Some \<lparr>hostname = h, username = u, password = p\<rparr>)))))"

text \<open>
  Lines 28 to 41: everything \<open>run\<close> evaluates before the constructor of
  \<open>GenericHandler\<close> is entered, in the order Python evaluates it: the proxy,
  then the user name, then the password.
\<close>

definition connect_args :: "worker \<Rightarrow> error + string \<times> string \<times> proxy option" where
  "connect_args w =
     (case build_proxy (w_session w) of
        Inl e \<Rightarrow> Inl e
      | Inr px \<Rightarrow>
          (case session_item (w_session w) ''NETWORK_USERNAME'' of
             Inl e \<Rightarrow> Inl e
           | Inr user \<Rightarrow>
               (case session_item (w_session w) ''NETWORK_PASSWORD'' of
                  Inl e \<Rightarrow> Inl e
                | Inr pass \<Rightarrow> Inr (user, pass, px))))"

text \<open>The three log lines of \<open>run\<close> (f-strings over the target).\<close>

definition msg_attempting :: "string \<Rightarrow> string" where
  "msg_attempting tgt = ''Attempting to push config to '' @ tgt"

definition msg_connected :: "string \<Rightarrow> string" where
  "msg_connected tgt = ''Connected to '' @ tgt @ '' successfully''"

definition msg_pushed :: "string \<Rightarrow> string" where
  "msg_pushed tgt = ''Configuration pushed to '' @ tgt @ '' successfully''"

text \<open>
  The body of the \<open>try\<close> block of \<open>run\<close>: the exception that leaves it, if
  any, and what happened up to there.
\<close>

definition run_body :: "worker \<Rightarrow> world \<Rightarrow> error option \<times> event list" where
  "run_body w d =
     (if flag_at w d 0 then (None, [Emit ''Aborted''])
      else
        let t1 = [Log_info (msg_attempting (w_target w)),
                  Emit ''Connecting'']
        in
        case connect_args w of
          Inl e \<Rightarrow> (Some e, t1)
        | Inr (user, pass, px) \<Rightarrow>
        let t2 = t1 @ [Connect (w_target w) user pass px] in
        if \<not> connect_ok d then (Some DeviceError, t2)
        else if flag_at w d 1 then
          (if close_ok d then None else Some DeviceError,
           t2 @ [Emit ''Aborted'', Close])
        else
          let t3 = t2 @ [Log_info (msg_connected (w_target w)),
                         Emit ''Pushing'',
                         Send_config_set (w_config w)]
          in
          if \<not> send_ok d then (Some DeviceError, t3)
          else
            let t4 = (if w_save w then t3 @ [Save_config] else t3) in
            if w_save w \<and> \<not> save_ok d then (Some DeviceError, t4)
            else
              let t5 = t4 @ [Emit (if flag_at w d 2 then ''Aborted'' else ''Pushed''),
                             Close]
              in
              if \<not> close_ok d then (Some DeviceError, t5)
              else
                (None,
                 t5 @ [Log_info (msg_pushed (w_target w))]))"

text \<open>
  \<open>PushWorker.run\<close>: the bare \<open>except\<close> catches whatever left the body, logs
  it and emits \<open>Failed\<close>.  The first component is the exception that leaves
  \<open>run\<close> itself.
\<close>

definition run :: "worker \<Rightarrow> world \<Rightarrow> error option \<times> event list" where
  "run w d =
     (case run_body w d of
        (None, t) \<Rightarrow> (None, t)
      | (Some e, t) \<Rightarrow> (None, t @ [Log_exception, Emit ''Failed'']))"

text \<open>The statuses a trace emits, in order.\<close>

fun statuses :: "event list \<Rightarrow> string list" where
  "statuses [] = []"
| "statuses (Emit s # es) = s # statuses es"
| "statuses (e # es) = statuses es"

definition terminal :: "string \<Rightarrow> bool" where
  "terminal s = (s = ''Pushed'' \<or> s = ''Aborted'' \<or> s = ''Failed'')"

text \<open>
  The shape the specification gives a status sequence: a prefix of
  \<open>Connecting, Pushing\<close> followed by exactly one terminal status.
\<close>

definition status_protocol :: "string list \<Rightarrow> bool" where
  "status_protocol ss =
     (ss \<noteq> [] \<and> prefix (butlast ss) [''Connecting'', ''Pushing''] \<and>
      terminal (last ss))"

text \<open>Whether a trace opened a session: the handler's constructor returned.\<close>

definition session_opened :: "worker \<Rightarrow> world \<Rightarrow> bool" where
  "session_opened w d =
     (list_ex (\<lambda>e. case e of Connect _ _ _ _ \<Rightarrow> True | _ \<Rightarrow> False) (snd (run w d)) \<and>
      connect_ok d)"

section \<open>The persistent list (ui.py, PersistantList)\<close>

text \<open>
  A task is the dictionary \<open>add_row\<close> builds: target, config, save and status.
\<close>

record task =
  target :: string
  config :: string
  save :: bool
  status :: string

text \<open>
  The file holds a JSON document.  \<open>json.dump\<close> writes the list as an array of
  objects; \<open>json.load\<close> reads it back.  Only the JSON values a task list
  serialises to are needed.
\<close>

datatype json =
  JString string
  | JBool bool
  | JArray "json list"
  | JObject "(string \<times> json) list"

definition task_to_json :: "task \<Rightarrow> json" where
  "task_to_json cd =
     JObject [(''target'', JString (target cd)), (''config'', JString (config cd)),
              (''save'', JBool (save cd)), (''status'', JString (status cd))]"

definition json_dump :: "task list \<Rightarrow> json" where
  "json_dump xs = JArray (map task_to_json xs)"

text \<open>
  Reading an object back as a task looks the four keys up, as the code's
  \<open>config_data.get\<close> does; a document that is not a list of such objects is not
  a task list, and loading it is an error in the model.
\<close>

definition task_of_json :: "json \<Rightarrow> task option" where
  "task_of_json j =
     (case j of
        JObject kvs \<Rightarrow>
          (case (map_of kvs ''target'', map_of kvs ''config'',
                 map_of kvs ''save'', map_of kvs ''status'') of
             (Some (JString t), Some (JString c), Some (JBool s), Some (JString st)) \<Rightarrow>
               Some \<lparr>target = t, config = c, save = s, status = st\<rparr>
           | _ \<Rightarrow> None)
      | _ \<Rightarrow> None)"

definition json_load :: "json \<Rightarrow> task list option" where
  "json_load j =
     (case j of JArray js \<Rightarrow> those (map task_of_json js) | _ \<Rightarrow> None)"

text \<open>
  A \<open>PersistantList\<close>: the list itself, and the file at \<open>filepath\<close>
  (\<open>disk\<close>: absent, or holding a document) with whether it can be written.
\<close>

record plist =
  items :: "task list"
  disk :: "json option"
  writable :: bool

text \<open>\<open>dump\<close>: rewrite the whole file from the list.\<close>

definition dump :: "plist \<Rightarrow> error + plist" where
  "dump pl =
     (if writable pl then Inr (pl\<lparr>disk := Some (json_dump (items pl))\<rparr>)
      else Inl OSError)"

text \<open>\<open>load\<close>: extend the list with the document, when the file exists.\<close>

definition load :: "plist \<Rightarrow> error + plist" where
  "load pl =
     (case disk pl of
        None \<Rightarrow> Inr pl
      | Some doc \<Rightarrow>
          (case json_load doc of
             None \<Rightarrow> Inl ValueError
           | Some xs \<Rightarrow> Inr (pl\<lparr>items := items pl @ xs\<rparr>)))"

text \<open>\<open>__init__\<close>: an empty list, loaded when the file exists and dumped otherwise.\<close>

definition PersistantList :: "json option \<Rightarrow> bool \<Rightarrow> error + plist" where
  "PersistantList f wr =
     (let pl = \<lparr>items = [], disk = f, writable = wr\<rparr>
      in if f \<noteq> None then load pl else dump pl)"

text \<open>
  The four overridden mutators.  Each calls the list's own method, which may raise,
  and then \<open>dump\<close>.
\<close>

definition setitem :: "plist \<Rightarrow> nat \<Rightarrow> task \<Rightarrow> error + plist" where
  "setitem pl i v =
     (if i < length (items pl) then dump (pl\<lparr>items := (items pl)[i := v]\<rparr>)
      else Inl IndexError)"

definition append_item :: "plist \<Rightarrow> task \<Rightarrow> error + plist" where
  "append_item pl v = dump (pl\<lparr>items := items pl @ [v]\<rparr>)"

text \<open>\<open>list.remove\<close> removes the first element equal to its argument.\<close>

definition remove_item :: "plist \<Rightarrow> task \<Rightarrow> error + plist" where
  "remove_item pl v =
     (if v \<in> set (items pl) then dump (pl\<lparr>items := remove1 v (items pl)\<rparr>)
      else Inl ValueError)"

definition clear_items :: "plist \<Rightarrow> error + plist" where
  "clear_items pl = dump (pl\<lparr>items := []\<rparr>)"

text \<open>A mutating call, and a sequence of them that stops at the first exception.\<close>

datatype mutation =
  Append task
  | Setitem nat task
  | Remove task
  | Clear

fun mutate :: "plist \<Rightarrow> mutation \<Rightarrow> error + plist" where
  "mutate pl (Append v) = append_item pl v"
| "mutate pl (Setitem i v) = setitem pl i v"
| "mutate pl (Remove v) = remove_item pl v"
| "mutate pl Clear = clear_items pl"

fun mutate_all :: "plist \<Rightarrow> mutation list \<Rightarrow> error + plist" where
  "mutate_all pl [] = Inr pl"
| "mutate_all pl (m # ms) =
     (case mutate pl m of Inl e \<Rightarrow> Inl e | Inr pl' \<Rightarrow> mutate_all pl' ms)"

text \<open>
  Reloading: what a new \<open>PersistantList\<close> on the same file holds.
\<close>

definition reload :: "plist \<Rightarrow> error + task list" where
  "reload pl =
     (case PersistantList (disk pl) (writable pl) of
        Inl e \<Rightarrow> Inl e
      | Inr pl' \<Rightarrow> Inr (items pl'))"

section \<open>The table and the form (ui.py, PushBoardTable and Form)\<close>

text \<open>
  A worker the form has started, with the position its status signal was connected
  to (the \<open>index\<close> captured by the lambda in \<open>_push\<close>).
\<close>

record thread =
  th_worker :: worker
  th_index :: nat

text \<open>
  The state of the form.  \<open>checkboxes\<close> are the rows of the table widget, each
  with the state of its save checkbox (the cell texts are display only and are not
  modelled).  \<open>workers\<close> is the handle list; a handle is \<open>None\<close> or a worker,
  named by its position in \<open>threads\<close>, the workers started so far in the order
  they were started.
\<close>

record form =
  data :: plist
  workers :: "nat option list"
  checkboxes :: "bool list"
  threads :: "thread list"
  form_session :: session

text \<open>\<open>list.insert(i, x)\<close>: at the end when \<open>i\<close> is past it.\<close>

definition insert_at :: "nat \<Rightarrow> 'a \<Rightarrow> 'a list \<Rightarrow> 'a list" where
  "insert_at i x xs = take i xs @ x # drop i xs"

text \<open>The list without its element at \<open>i\<close>; unchanged when there is none.\<close>

definition remove_at :: "nat \<Rightarrow> 'a list \<Rightarrow> 'a list" where
  "remove_at i xs = take i xs @ drop (Suc i) xs"

text \<open>
  \<open>PushBoardTable.__init__\<close>: no handles, the list from the file, one row for
  each task (\<open>load_rows\<close>).
\<close>

definition PushBoardTable :: "json option \<Rightarrow> bool \<Rightarrow> session \<Rightarrow> error + form" where
  "PushBoardTable f wr sess =
     (case PersistantList f wr of
        Inl e \<Rightarrow> Inl e
      | Inr pl \<Rightarrow>
          Inr \<lparr>data = pl, workers = [], checkboxes = map save (items pl),
               threads = [], form_session = sess\<rparr>)"

definition insert_row :: "form \<Rightarrow> task \<Rightarrow> form" where
  "insert_row st cd = st\<lparr>checkboxes := checkboxes st @ [save cd]\<rparr>"

definition add_row :: "form \<Rightarrow> string \<Rightarrow> string \<Rightarrow> string \<Rightarrow> bool \<Rightarrow> error + form" where
  "add_row st tgt cfg stat sv =
     (let cd = \<lparr>target = tgt, config = cfg, save = sv, status = stat\<rparr>;
          st1 = insert_row st cd
      in case append_item (data st1) cd of
           Inl e \<Rightarrow> Inl e
         | Inr pl \<Rightarrow> Inr (st1\<lparr>data := pl, workers := workers st1 @ [None]\<rparr>))"

text \<open>
  \<open>delete_row\<close>, for the selected row \<open>row_index\<close>.  \<open>removeRow\<close> does nothing
  when there is no such row; \<open>self.data[row_index]\<close> and \<open>workers.pop\<close> raise
  \<open>IndexError\<close> out of range.
\<close>

definition delete_row :: "form \<Rightarrow> nat \<Rightarrow> error + form" where
  "delete_row st row_index =
     (let st1 = st\<lparr>checkboxes := remove_at row_index (checkboxes st)\<rparr>
      in if items (data st1) \<noteq> [] then
           if row_index < length (items (data st1)) then
             case remove_item (data st1) (items (data st1) ! row_index) of
               Inl e \<Rightarrow> Inl e
             | Inr pl \<Rightarrow>
                 if row_index < length (workers st1) then
                   Inr (st1\<lparr>data := pl,
                            workers := remove_at row_index (workers st1)\<rparr>)
                 else Inl IndexError
           else Inl IndexError
         else Inr st1)"

text \<open>
  \<open>update_row\<close>: \<open>self.item(row_index, 0)\<close> is \<open>None\<close> when the table has no
  such row, and \<open>setText\<close> on it raises \<open>AttributeError\<close>.
\<close>

definition update_row :: "form \<Rightarrow> nat \<Rightarrow> task \<Rightarrow> error + form" where
  "update_row st row_index cd =
     (if row_index < length (checkboxes st) then
        if items (data st) \<noteq> [] then
          case setitem (data st) row_index cd of
            Inl e \<Rightarrow> Inl e
          | Inr pl \<Rightarrow> Inr (st\<lparr>data := pl\<rparr>)
        else Inr st
      else Inl AttributeError)"

definition clear_all :: "form \<Rightarrow> error + form" where
  "clear_all st =
     (case clear_items (data st) of
        Inl e \<Rightarrow> Inl e
      | Inr pl \<Rightarrow> Inr (st\<lparr>checkboxes := [], data := pl, workers := []\<rparr>))"

text \<open>
  \<open>Form._push\<close>.  The worker is started, its signal is connected to
  \<open>_update_status\<close> at \<open>index\<close>, and the handle is inserted (not assigned) at
  \<open>index\<close>.
\<close>

definition push :: "form \<Rightarrow> nat \<Rightarrow> string \<Rightarrow> string \<Rightarrow> form" where
  "push st index tgt cfg =
     (if tgt = [] \<or> cfg = [] then st
      else
        let sv = (if index < length (checkboxes st) then checkboxes st ! index
                  else False);
            worker = PushWorker tgt cfg sv (form_session st)
        in st\<lparr>threads := threads st @ [\<lparr>th_worker = worker, th_index = index\<rparr>],
              workers := insert_at index (Some (length (threads st))) (workers st)\<rparr>)"

text \<open>The body of the loops of \<open>push_all\<close> and \<open>push_selected\<close>.\<close>

definition push_unless_pushed :: "form \<Rightarrow> nat \<Rightarrow> task \<Rightarrow> form" where
  "push_unless_pushed st index cd =
     (if status cd \<noteq> ''Pushed'' then push st index (target cd) (config cd)
      else st)"

definition push_all :: "form \<Rightarrow> form" where
  "push_all st =
     fold (\<lambda>(index, cd) s. push_unless_pushed s index cd)
          (enumerate 0 (items (data st))) st"

text \<open>
  \<open>push_selected\<close>: \<open>selected\<close> are the rows of the selected cells; the loop runs
  over the set of them, once each, in an order the code does not fix.
\<close>

fun push_rows :: "form \<Rightarrow> nat list \<Rightarrow> error + form" where
  "push_rows st [] = Inr st"
| "push_rows st (index # rest) =
     (if index < length (items (data st)) then
        push_rows (push_unless_pushed st index (items (data st) ! index)) rest
      else Inl IndexError)"

definition push_selected :: "form \<Rightarrow> nat list \<Rightarrow> error + form" where
  "push_selected st selected = push_rows st (remdups selected)"

text \<open>
  \<open>Form._update_status\<close>: the dictionary at \<open>index\<close> is changed in place, then
  \<open>update_row\<close> stores it again, which dumps.
\<close>

definition update_status :: "form \<Rightarrow> nat \<Rightarrow> string \<Rightarrow> error + form" where
  "update_status st index stat =
     (if index < length (items (data st)) then
        let cd = (items (data st) ! index)\<lparr>status := stat\<rparr>;
            st1 = st\<lparr>data := (data st)\<lparr>items := (items (data st))[index := cd]\<rparr>\<rparr>
        in update_row st1 index cd
      else Inl IndexError)"

text \<open>
  A status emitted by the worker \<open>wid\<close> reaches the slot connected in \<open>_push\<close>:
  \<open>_update_status\<close> at the position captured then.
\<close>

definition on_status :: "form \<Rightarrow> nat \<Rightarrow> string \<Rightarrow> error + form" where
  "on_status st wid stat =
     (if wid < length (threads st) then
        update_status st (th_index (threads st ! wid)) stat
      else Inr st)"

text \<open>The pairing invariant of the specification.\<close>

definition paired :: "form \<Rightarrow> bool" where
  "paired st = (length (items (data st)) = length (workers st))"

text \<open>The workers started between two states of the form.\<close>

definition started :: "form \<Rightarrow> form \<Rightarrow> thread list" where
  "started st st' = drop (length (threads st)) (threads st')"

text \<open>
  The worker \<open>_push\<close> starts for the task \<open>cd\<close> at position \<open>i\<close>: built from
  the task's target and config, the state of the row's checkbox (\<open>False\<close> when the
  table has no such row) and the form's session, and connected to position \<open>i\<close>.
\<close>

definition spawned :: "form \<Rightarrow> nat \<Rightarrow> task \<Rightarrow> thread" where
  "spawned st i cd =
     \<lparr>th_worker =
        PushWorker (target cd) (config cd)
          (i < length (checkboxes st) \<and> checkboxes st ! i) (form_session st),
      th_index = i\<rparr>"

text \<open>
  The tasks for which a pass of the push loops starts a worker: the status test of
  \<open>push_all\<close> and \<open>push_selected\<close>, and the guard of \<open>_push\<close>.
\<close>

definition pushable :: "task \<Rightarrow> bool" where
  "pushable cd = (status cd \<noteq> ''Pushed'' \<and> target cd \<noteq> [] \<and> config cd \<noteq> [])"

text \<open>The threads of a list that are connected to position \<open>i\<close>.\<close>

definition bound_to :: "nat \<Rightarrow> thread list \<Rightarrow> thread list" where
  "bound_to i ts = filter (\<lambda>t. th_index t = i) ts"

text \<open>The task list of a result.\<close>

definition tasks_of :: "error + form \<Rightarrow> error + task list" where
  "tasks_of r = (case r of Inl e \<Rightarrow> Inl e | Inr st \<Rightarrow> Inr (items (data st)))"

text \<open>
  The loops of \<open>import_csv\<close> and of \<open>AddConfigurationDialog.accept\<close> over rows
  that passed their checks: one \<open>add_row\<close> with status \<open>Pending\<close> for each.
\<close>

fun add_rows :: "form \<Rightarrow> (string \<times> string) list \<Rightarrow> error + form" where
  "add_rows st [] = Inr st"
| "add_rows st ((tgt, cfg) # rest) =
     (case add_row st tgt cfg ''Pending'' True of
        Inl e \<Rightarrow> Inl e
      | Inr st' \<Rightarrow> add_rows st' rest)"

section \<open>Examples\<close>

definition demo_session :: session where
  "demo_session =
     Some [''NETWORK_USERNAME'' \<mapsto> ''admin'', ''NETWORK_PASSWORD'' \<mapsto> ''secret'']"

definition demo_worker :: worker where
  "demo_worker = PushWorker ''r1.example.com'' ''interface eth0'' True demo_session"

definition calm :: world where
  "calm = \<lparr>connect_ok = True, send_ok = True, save_ok = True, close_ok = True,
            abort_at = None\<rparr>"

definition empty_form :: form where
  "empty_form =
     \<lparr>data = \<lparr>items = [], disk = Some (JArray []), writable = True\<rparr>,
      workers = [], checkboxes = [], threads = [], form_session = demo_session\<rparr>"

definition task_a :: task where
  "task_a = \<lparr>target = ''r1'', config = ''cfg'', save = True, status = ''Pending''\<rparr>"

definition task_b :: task where
  "task_b = \<lparr>target = ''r2'', config = ''cfg'', save = True, status = ''Pending''\<rparr>"

text \<open>The form after \<open>add_row("r1", "cfg", "Pending")\<close> on the empty form.\<close>

definition one_row :: form where
  "one_row =
     \<lparr>data = \<lparr>items = [task_a], disk = Some (json_dump [task_a]), writable = True\<rparr>,
      workers = [None], checkboxes = [True], threads = [],
      form_session = demo_session\<rparr>"

text \<open>The form after three rows were added, the first and the third equal.\<close>

definition dup_rows :: form where
  "dup_rows =
     \<lparr>data = \<lparr>items = [task_a, task_b, task_a],
              disk = Some (json_dump [task_a, task_b, task_a]), writable = True\<rparr>,
      workers = [None, None, None], checkboxes = [True, True, True], threads = [],
      form_session = demo_session\<rparr>"

text \<open>A form with two rows, the second already pushed.\<close>

definition mixed_rows :: form where
  "mixed_rows =
     \<lparr>data = \<lparr>items = [task_a, task_b\<lparr>status := ''Pushed''\<rparr>],
              disk = Some (json_dump [task_a, task_b\<lparr>status := ''Pushed''\<rparr>]),
              writable = True\<rparr>,
      workers = [None, None], checkboxes = [True, True], threads = [],
      form_session = demo_session\<rparr>"

text \<open>The form after two rows were added.\<close>

definition two_rows :: form where
  "two_rows =
     \<lparr>data = \<lparr>items = [task_a, task_b], disk = Some (json_dump [task_a, task_b]),
              writable = True\<rparr>,
      workers = [None, None], checkboxes = [True, True], threads = [],
      form_session = demo_session\<rparr>"

section \<open>Properties\<close>

subsection \<open>The worker\<close>

lemma statuses_append: "statuses (xs @ ys) = statuses xs @ statuses ys"
  by (induction xs rule: statuses.induct) simp_all

lemma terminal_simps:
  "terminal ''Pushed''" "terminal ''Aborted''" "terminal ''Failed''"
  "\<not> terminal ''Connecting''" "\<not> terminal ''Pushing''" "\<not> terminal ''Pending''"
  by (simp_all add: terminal_def)

lemma run_body_Inl:
  "connect_args w = Inl e \<Longrightarrow>
   run_body w d =
     (if flag_at w d 0 then (None, [Emit ''Aborted''])
      else (Some e, [Log_info (msg_attempting (w_target w)), Emit ''Connecting'']))"
  by (simp add: run_body_def)

text \<open>The statuses of a run, path by path.\<close>

lemma statuses_run:
  "statuses (snd (run w d)) =
    (if flag_at w d 0 then [''Aborted'']
     else if isl (connect_args w) \<or> \<not> connect_ok d then [''Connecting'', ''Failed'']
     else if flag_at w d 1 then
       ''Connecting'' # ''Aborted'' # (if close_ok d then [] else [''Failed''])
     else if \<not> send_ok d \<or> (w_save w \<and> \<not> save_ok d) then
       [''Connecting'', ''Pushing'', ''Failed'']
     else
       ''Connecting'' # ''Pushing'' # (if flag_at w d 2 then ''Aborted'' else ''Pushed'') #
       (if close_ok d then [] else [''Failed'']))"
  by (simp add: run_def run_body_def Let_def statuses_append
           split: sum.splits prod.splits)

lemma demo_args: "connect_args demo_worker = Inr (''admin'', ''secret'', None)"
  by (simp add: demo_worker_def PushWorker_def demo_session_def connect_args_def
        build_proxy_def session_get_def session_item_def)

lemma calm_simps:
  "connect_ok calm" "send_ok calm" "save_ok calm" "close_ok calm" "abort_at calm = None"
  by (simp_all add: calm_def)

lemma demo_worker_simps:
  "w_target demo_worker = ''r1.example.com''" "w_config demo_worker = ''interface eth0''"
  "w_save demo_worker" "\<not> abort_requested demo_worker"
  by (simp_all add: demo_worker_def PushWorker_def)

lemma demo_flags: "flag_at demo_worker calm k = False"
  "flag_at demo_worker (calm\<lparr>close_ok := b\<rparr>) k = False"
  "flag_at demo_worker (calm\<lparr>send_ok := b\<rparr>) k = False"
  by (simp_all add: flag_at_def demo_worker_def PushWorker_def calm_def)

text \<open>
  C2, as stated, fails.  When everything succeeds but the handler's \<open>close\<close>
  raises, \<open>Pushed\<close> has already been emitted inside the \<open>try\<close> block and the
  \<open>except\<close> branch emits \<open>Failed\<close> after it: two terminal statuses, one after
  the other.
\<close>

theorem C2_close_raises_counterexample:
  "statuses (snd (run demo_worker (calm\<lparr>close_ok := False\<rparr>))) =
     [''Connecting'', ''Pushing'', ''Pushed'', ''Failed''] \<and>
   \<not> status_protocol (statuses (snd (run demo_worker (calm\<lparr>close_ok := False\<rparr>))))"
  by (simp add: statuses_run demo_args demo_flags status_protocol_def calm_simps
        demo_worker_simps)

text \<open>
  C2, amended: in every execution in which the handler's \<open>close\<close> does not raise,
  the statuses the worker emits are a prefix of \<open>Connecting, Pushing\<close> followed by
  exactly one of \<open>Pushed\<close>, \<open>Aborted\<close>, \<open>Failed\<close>: no status is emitted twice,
  and exactly one terminal status is emitted, last.
\<close>

theorem C2_status_sequence:
  assumes "close_ok d"
  shows "status_protocol (statuses (snd (run w d))) \<and>
         distinct (statuses (snd (run w d))) \<and>
         length (filter terminal (statuses (snd (run w d)))) = 1"
proof -
  from assms have "status_protocol (statuses (snd (run w d)))"
    by (simp add: statuses_run status_protocol_def terminal_simps)
  moreover from assms have "distinct (statuses (snd (run w d)))"
    by (simp add: statuses_run)
  moreover from assms have "length (filter terminal (statuses (snd (run w d)))) = 1"
    by (simp add: statuses_run terminal_simps)
  ultimately show ?thesis by simp
qed

theorem C2_status_sequence_witness:
  "close_ok calm \<and>
   statuses (snd (run demo_worker calm)) = [''Connecting'', ''Pushing'', ''Pushed''] \<and>
   status_protocol (statuses (snd (run demo_worker calm))) \<and>
   distinct (statuses (snd (run demo_worker calm))) \<and>
   length (filter terminal (statuses (snd (run demo_worker calm)))) = 1"
  using C2_status_sequence [of calm demo_worker]
  by (simp add: statuses_run demo_args demo_flags calm_simps demo_worker_simps)

text \<open>
  C3 fails on the code.  The session is opened (the constructor returned), then
  \<open>send_config_set\<close> raises: the \<open>except\<close> branch logs and emits \<open>Failed\<close>,
  and \<open>run\<close> returns without ever calling \<open>close\<close>.
\<close>

theorem C3_session_left_open:
  "session_opened demo_worker (calm\<lparr>send_ok := False\<rparr>) \<and>
   Close \<notin> set (snd (run demo_worker (calm\<lparr>send_ok := False\<rparr>))) \<and>
   statuses (snd (run demo_worker (calm\<lparr>send_ok := False\<rparr>))) =
     [''Connecting'', ''Pushing'', ''Failed'']"
  by (simp add: session_opened_def run_def run_body_def Let_def demo_args demo_flags
        calm_simps demo_worker_simps)

text \<open>
  The paths that do close: whenever the session was opened and no exception left
  the \<open>try\<close> block, \<open>close\<close> was called.
\<close>

lemma close_when_no_exception:
  "session_opened w d \<Longrightarrow> fst (run_body w d) = None \<Longrightarrow> Close \<in> set (snd (run w d))"
  by (auto simp add: session_opened_def run_def run_body_def Let_def
           split: sum.splits prod.splits if_splits)

lemma late_abort_unseen:
  assumes "abort_at d = Some n" "3 \<le> n"
  shows "run w d = run w (d\<lparr>abort_at := None\<rparr>)"
proof -
  have f1: "\<And>k. k \<le> 2 \<Longrightarrow> flag_at w d k = abort_requested w"
    using assms by (simp add: flag_at_def)
  have f2: "\<And>k. flag_at w (d\<lparr>abort_at := None\<rparr>) k = abort_requested w"
    by (simp add: flag_at_def)
  have "run_body w d = run_body w (d\<lparr>abort_at := None\<rparr>)"
    by (auto simp add: run_body_def f1 f2 Let_def split: sum.splits prod.splits)
  then show ?thesis by (simp add: run_def)
qed

lemma pushed_excludes_aborted:
  "''Pushed'' \<in> set (statuses (snd (run w d))) \<Longrightarrow>
   ''Aborted'' \<notin> set (statuses (snd (run w d))) \<and>
   (close_ok d \<longrightarrow> last (statuses (snd (run w d))) = ''Pushed'')"
  by (simp add: statuses_run split: if_splits)

text \<open>
  C7.  When \<open>abort\<close> is called before the first checkpoint is read, the whole run
  is the one emission of \<open>Aborted\<close>: no other status, and no call of the
  handler's constructor.  When \<open>abort\<close> is called after the third checkpoint (which
  is where \<open>Pushed\<close> is emitted), the run is the run without any abort request; if
  it emitted \<open>Pushed\<close> it emits no \<open>Aborted\<close>, and with \<open>close\<close> returning,
  \<open>Pushed\<close> is its last status.
\<close>

theorem C7_abort_early_and_late:
  "(abort_at d = Some 0 \<longrightarrow> snd (run w d) = [Emit ''Aborted'']) \<and>
   (abort_at d = Some n \<and> 3 \<le> n \<longrightarrow>
      run w d = run w (d\<lparr>abort_at := None\<rparr>) \<and>
      (''Pushed'' \<in> set (statuses (snd (run w d))) \<longrightarrow>
         ''Aborted'' \<notin> set (statuses (snd (run w d))) \<and>
         (close_ok d \<longrightarrow> last (statuses (snd (run w d))) = ''Pushed'')))"
proof -
  have "abort_at d = Some 0 \<Longrightarrow> snd (run w d) = [Emit ''Aborted'']"
    by (simp add: run_def run_body_def flag_at_def abort_def)
  with late_abort_unseen [of d n w] pushed_excludes_aborted [of w d]
  show ?thesis by blast
qed

theorem C7_abort_early_and_late_witness:
  "abort_at (calm\<lparr>abort_at := Some 0\<rparr>) = Some 0 \<and>
   snd (run demo_worker (calm\<lparr>abort_at := Some 0\<rparr>)) = [Emit ''Aborted''] \<and>
   abort_at (calm\<lparr>abort_at := Some 3\<rparr>) = Some 3 \<and>
   run demo_worker (calm\<lparr>abort_at := Some 3\<rparr>) = run demo_worker calm \<and>
   statuses (snd (run demo_worker calm)) = [''Connecting'', ''Pushing'', ''Pushed''] \<and>
   last (statuses (snd (run demo_worker (calm\<lparr>abort_at := Some 3\<rparr>)))) = ''Pushed''"
proof -
  have c: "calm\<lparr>abort_at := Some 3, abort_at := None\<rparr> = calm"
    by (simp add: calm_def)
  have s: "statuses (snd (run demo_worker calm)) = [''Connecting'', ''Pushing'', ''Pushed'']"
    by (simp add: statuses_run demo_args demo_flags calm_simps demo_worker_simps)
  have k: "close_ok (calm\<lparr>abort_at := Some 3\<rparr>)"
    by (simp add: calm_def)
  from C7_abort_early_and_late [of "calm\<lparr>abort_at := Some 0\<rparr>" demo_worker 0]
  have a: "snd (run demo_worker (calm\<lparr>abort_at := Some 0\<rparr>)) = [Emit ''Aborted'']"
    by simp
  from C7_abort_early_and_late [of "calm\<lparr>abort_at := Some 3\<rparr>" demo_worker 3]
  have b: "run demo_worker (calm\<lparr>abort_at := Some 3\<rparr>) = run demo_worker calm \<and>
           last (statuses (snd (run demo_worker (calm\<lparr>abort_at := Some 3\<rparr>)))) = ''Pushed''"
    using c s k by simp
  from a b s show ?thesis by simp
qed

lemma save_config_never:
  "\<not> w_save w \<Longrightarrow> Save_config \<notin> set (snd (run w d))"
  by (simp add: run_def run_body_def Let_def split: sum.splits prod.splits)

lemma save_config_once:
  assumes "w_save w" "Emit ''Pushing'' \<in> set (snd (run w d))" "send_ok d"
  shows "count_list (snd (run w d)) Save_config = 1 \<and>
         (\<exists>xs ys. snd (run w d) = xs @ Send_config_set (w_config w) # Save_config # ys)"
proof (cases "connect_args w")
  case (Inl e)
  with assms(2) show ?thesis
    by (simp add: run_def run_body_Inl split: if_splits)
next
  case (Inr a)
  obtain u p px where a: "a = (u, p, px)" by (cases a)
  show ?thesis
  proof (cases "flag_at w d 0 \<or> \<not> connect_ok d \<or> flag_at w d 1")
    case True
    with assms(2) Inr a show ?thesis
      by (auto simp add: run_def run_body_def Let_def split: if_splits)
  next
    case False
    let ?t3 = "[Log_info (msg_attempting (w_target w)), Emit ''Connecting'',
                Connect (w_target w) u p px, Log_info (msg_connected (w_target w)),
                Emit ''Pushing'']"
    from False assms(1,3) Inr a
    have "\<exists>ys. snd (run w d) = ?t3 @ Send_config_set (w_config w) # Save_config # ys"
      by (simp add: run_def run_body_def Let_def)
    moreover from False assms(1,3) Inr a
    have "count_list (snd (run w d)) Save_config = 1"
      by (simp add: run_def run_body_def Let_def)
    ultimately show ?thesis by blast
  qed
qed

lemma push_started:
  "tgt \<noteq> [] \<Longrightarrow> cfg \<noteq> [] \<Longrightarrow>
   started st (push st index tgt cfg) =
     [\<lparr>th_worker =
         PushWorker tgt cfg (index < length (checkboxes st) \<and> checkboxes st ! index)
           (form_session st),
       th_index = index\<rparr>]"
  by (simp add: push_def started_def Let_def)

text \<open>
  C10.  A worker built with \<open>save = False\<close> never calls \<open>save_config\<close>.  A worker
  built with \<open>save = True\<close> that reaches the pushing step (it emitted
  \<open>Pushing\<close>) and whose \<open>send_config_set\<close> returns calls \<open>save_config\<close> exactly
  once, right after \<open>send_config_set\<close>.  The \<open>save\<close> a worker is built with is
  the one \<open>_push\<close> reads from the row's checkbox.
\<close>

theorem C10_save_config:
  "(\<not> w_save w \<longrightarrow> Save_config \<notin> set (snd (run w d))) \<and>
   (w_save w \<and> Emit ''Pushing'' \<in> set (snd (run w d)) \<and> send_ok d \<longrightarrow>
      count_list (snd (run w d)) Save_config = 1 \<and>
      (\<exists>xs ys. snd (run w d) = xs @ Send_config_set (w_config w) # Save_config # ys)) \<and>
   (tgt \<noteq> [] \<and> cfg \<noteq> [] \<longrightarrow>
      map (\<lambda>t. w_save (th_worker t)) (started st (push st index tgt cfg)) =
        [index < length (checkboxes st) \<and> checkboxes st ! index])"
  using save_config_never [of w d] save_config_once [of w d]
    push_started [of tgt cfg st index]
  by (simp add: PushWorker_def)

theorem C10_save_config_witness:
  "\<not> w_save (demo_worker\<lparr>w_save := False\<rparr>) \<and>
   Save_config \<notin> set (snd (run (demo_worker\<lparr>w_save := False\<rparr>) calm)) \<and>
   w_save demo_worker \<and> Emit ''Pushing'' \<in> set (snd (run demo_worker calm)) \<and>
   send_ok calm \<and> count_list (snd (run demo_worker calm)) Save_config = 1 \<and>
   map (\<lambda>t. w_save (th_worker t)) (started one_row (push one_row 0 ''r1'' ''cfg'')) = [True]"
proof -
  have p: "Emit ''Pushing'' \<in> set (snd (run demo_worker calm))"
    by (simp add: run_def run_body_def Let_def demo_args demo_flags calm_simps
          demo_worker_simps)
  have c: "checkboxes one_row = [True]"
    by (simp add: one_row_def)
  from C10_save_config [of "demo_worker\<lparr>w_save := False\<rparr>" calm "''r1''" "''cfg''" one_row 0]
  have 1: "Save_config \<notin> set (snd (run (demo_worker\<lparr>w_save := False\<rparr>) calm))"
    by simp
  from C10_save_config [of demo_worker calm "''r1''" "''cfg''" one_row 0] p c
  have 2: "count_list (snd (run demo_worker calm)) Save_config = 1 \<and>
           map (\<lambda>t. w_save (th_worker t)) (started one_row (push one_row 0 ''r1'' ''cfg''))
             = [True]"
    by (simp add: calm_simps demo_worker_simps)
  from 1 2 p show ?thesis by (simp add: calm_simps demo_worker_simps)
qed

subsection \<open>The persistent list\<close>

lemma task_a_neq_b: "task_a \<noteq> task_b" "task_b \<noteq> task_a"
  by (simp_all add: task_a_def task_b_def)

lemma task_json_round_trip: "task_of_json (task_to_json cd) = Some cd"
  by (simp add: task_of_json_def task_to_json_def)

lemma json_round_trip: "json_load (json_dump xs) = Some xs"
proof -
  have "those (map task_of_json (map task_to_json xs)) = Some xs"
    by (induction xs) (simp_all add: task_json_round_trip)
  then show ?thesis by (simp add: json_load_def json_dump_def)
qed

lemma dump_Inr:
  "dump pl = Inr pl' \<Longrightarrow>
   disk pl' = Some (json_dump (items pl')) \<and> items pl' = items pl \<and>
   writable pl' = writable pl"
  by (auto simp add: dump_def split: if_splits)

text \<open>Every mutating call that returns has written the list it leaves.\<close>

lemma mutate_dumps:
  "mutate pl m = Inr pl' \<Longrightarrow> disk pl' = Some (json_dump (items pl'))"
  by (cases m)
     (auto simp add: append_item_def setitem_def remove_item_def clear_items_def
        dest!: dump_Inr split: if_splits)

lemma reload_dumped:
  "disk pl = Some (json_dump (items pl)) \<Longrightarrow> reload pl = Inr (items pl)"
  by (simp add: reload_def PersistantList_def load_def json_round_trip)

lemma reload_new:
  assumes "PersistantList f wr = Inr pl"
  shows "reload pl = Inr (items pl)"
proof (cases f)
  case None
  with assms have "dump \<lparr>items = [], disk = None, writable = wr\<rparr> = Inr pl"
    by (simp add: PersistantList_def)
  then show ?thesis by (simp add: dump_Inr reload_dumped)
next
  case (Some doc)
  with assms have "load \<lparr>items = [], disk = Some doc, writable = wr\<rparr> = Inr pl"
    by (simp add: PersistantList_def)
  then obtain xs where "json_load doc = Some xs"
    and "pl = \<lparr>items = xs, disk = Some doc, writable = wr\<rparr>"
    by (auto simp add: load_def split: option.splits)
  then show ?thesis
    by (simp add: reload_def PersistantList_def load_def)
qed

lemma mutate_all_reload:
  "reload pl = Inr (items pl) \<Longrightarrow> mutate_all pl ms = Inr pl' \<Longrightarrow>
   reload pl' = Inr (items pl')"
proof (induction ms arbitrary: pl)
  case Nil
  then show ?case by simp
next
  case (Cons m ms)
  from Cons.prems(2) obtain pl1
    where m: "mutate pl m = Inr pl1" and r: "mutate_all pl1 ms = Inr pl'"
    by (auto split: sum.splits)
  from m have "reload pl1 = Inr (items pl1)"
    by (simp add: mutate_dumps reload_dumped)
  then show ?case using r by (rule Cons.IH)
qed

text \<open>
  A mutating call returns whenever the file can be written and the list's own
  method does not raise.
\<close>

lemma mutate_returns:
  "writable pl \<Longrightarrow>
   (case m of
      Setitem i v \<Rightarrow> i < length (items pl)
    | Remove v \<Rightarrow> v \<in> set (items pl)
    | _ \<Rightarrow> True) \<Longrightarrow>
   \<exists>pl'. mutate pl m = Inr pl'"
  by (cases m)
     (simp_all add: append_item_def setitem_def remove_item_def clear_items_def dump_def)

text \<open>
  C6.  A mutating call (\<open>append\<close>, index assignment, \<open>remove\<close>, \<open>clear\<close>) that
  returns has rewritten the file from the list inside the call, and the file, read
  back by a new \<open>PersistantList\<close>, gives the list in memory.  The same holds after
  any sequence of such calls on a list that was constructed from the file.
\<close>

theorem C6_round_trip:
  "(mutate pl m = Inr pl' \<longrightarrow>
      disk pl' = Some (json_dump (items pl')) \<and> reload pl' = Inr (items pl')) \<and>
   (PersistantList f wr = Inr pl0 \<and> mutate_all pl0 ms = Inr pl1 \<longrightarrow>
      reload pl1 = Inr (items pl1))"
  using mutate_dumps [of pl m pl'] reload_dumped [of pl']
    reload_new [of f wr pl0] mutate_all_reload [of pl0 ms pl1]
  by blast

theorem C6_round_trip_witness:
  "mutate \<lparr>items = [task_a], disk = None, writable = True\<rparr> (Append task_b) =
     Inr \<lparr>items = [task_a, task_b], disk = Some (json_dump [task_a, task_b]),
          writable = True\<rparr> \<and>
   reload \<lparr>items = [task_a, task_b], disk = Some (json_dump [task_a, task_b]),
           writable = True\<rparr> = Inr [task_a, task_b] \<and>
   PersistantList None True = Inr \<lparr>items = [], disk = Some (JArray []), writable = True\<rparr> \<and>
   mutate_all \<lparr>items = [], disk = Some (JArray []), writable = True\<rparr>
     [Clear, Append task_a, Append task_a, Setitem 0 task_b, Remove task_a] =
     Inr \<lparr>items = [task_b], disk = Some (json_dump [task_b]), writable = True\<rparr> \<and>
   reload \<lparr>items = [task_b], disk = Some (json_dump [task_b]), writable = True\<rparr> =
     Inr [task_b]"
proof -
  let ?p0 = "\<lparr>items = [task_a], disk = None, writable = True\<rparr>"
  let ?p1 = "\<lparr>items = [task_a, task_b], disk = Some (json_dump [task_a, task_b]),
              writable = True\<rparr>"
  let ?q0 = "\<lparr>items = [], disk = Some (JArray []), writable = True\<rparr>"
  let ?q1 = "\<lparr>items = [task_b], disk = Some (json_dump [task_b]), writable = True\<rparr>"
  let ?ms = "[Clear, Append task_a, Append task_a, Setitem 0 task_b, Remove task_a]"
  have a: "mutate ?p0 (Append task_b) = Inr ?p1"
    by (simp add: append_item_def dump_def)
  have b: "PersistantList None True = Inr ?q0"
    by (simp add: PersistantList_def dump_def json_dump_def)
  have c: "mutate_all ?q0 ?ms = Inr ?q1"
    by (simp add: append_item_def setitem_def remove_item_def clear_items_def dump_def
          task_a_neq_b)
  from C6_round_trip [of ?p0 "Append task_b" ?p1 None True ?q0 ?ms ?q1] a b c
  show ?thesis by simp
qed

subsection \<open>The table and the form\<close>

lemma push_frame:
  "data (push st i t c) = data st" "checkboxes (push st i t c) = checkboxes st"
  "form_session (push st i t c) = form_session st"
  by (simp_all add: push_def Let_def)

lemma push_workers_length:
  "t \<noteq> [] \<Longrightarrow> c \<noteq> [] \<Longrightarrow> length (workers (push st i t c)) = Suc (length (workers st))"
  by (simp add: push_def Let_def insert_at_def)

text \<open>The operations that keep the task list and the handle list paired.\<close>

lemma add_row_paired: "paired st \<Longrightarrow> add_row st t c s sv = Inr st' \<Longrightarrow> paired st'"
  by (auto simp add: paired_def add_row_def insert_row_def append_item_def dump_def Let_def
        split: sum.splits if_splits)

lemma clear_all_paired: "clear_all st = Inr st' \<Longrightarrow> paired st'"
  by (auto simp add: paired_def clear_all_def clear_items_def dump_def
        split: sum.splits if_splits)

lemma length_remove_at: "i < length xs \<Longrightarrow> length (remove_at i xs) = length xs - 1"
  by (simp add: remove_at_def)

lemma delete_row_paired: "paired st \<Longrightarrow> delete_row st i = Inr st' \<Longrightarrow> paired st'"
  by (auto simp add: paired_def delete_row_def remove_item_def dump_def Let_def
        length_remove_at length_remove1 split: sum.splits if_splits)

text \<open>Every push that starts a worker unpairs them.\<close>

lemma push_breaks_pairing:
  "paired st \<Longrightarrow> t \<noteq> [] \<Longrightarrow> c \<noteq> [] \<Longrightarrow> \<not> paired (push st i t c)"
  by (simp add: paired_def push_frame push_workers_length)

text \<open>A table constructed from a file has a row for each task and no handle.\<close>

lemma startup_handles:
  "PushBoardTable f wr sess = Inr st \<Longrightarrow>
   workers st = [] \<and> length (checkboxes st) = length (items (data st))"
  by (auto simp add: PushBoardTable_def split: sum.splits)

lemma add_row_one_row: "add_row empty_form ''r1'' ''cfg'' ''Pending'' True = Inr one_row"
  by (simp add: add_row_def insert_row_def append_item_def dump_def empty_form_def
        one_row_def task_a_def Let_def)

lemma push_one_row:
  "push one_row 0 ''r1'' ''cfg'' =
     one_row\<lparr>threads := [spawned one_row 0 task_a], workers := [Some 0, None]\<rparr>"
  by (simp add: push_def one_row_def insert_at_def spawned_def task_a_def Let_def)

text \<open>
  C1 fails on the code.  After \<open>add_row\<close> on the empty form the task list and the
  handle list both have one entry.  \<open>_push\<close> at position 0 then inserts the new
  handle in front of the \<open>None\<close> that \<open>add_row\<close> put there instead of replacing
  it: one task, two handles.
\<close>

theorem C1_push_unpairs:
  "add_row empty_form ''r1'' ''cfg'' ''Pending'' True = Inr one_row \<and>
   paired one_row \<and>
   items (data (push one_row 0 ''r1'' ''cfg'')) = [task_a] \<and>
   workers (push one_row 0 ''r1'' ''cfg'') = [Some 0, None] \<and>
   \<not> paired (push one_row 0 ''r1'' ''cfg'')"
  by (simp add: add_row_one_row push_one_row paired_def) (simp add: one_row_def)

lemma remove1_nth_first:
  "i < length xs \<Longrightarrow> xs ! i \<notin> set (take i xs) \<Longrightarrow> remove1 (xs ! i) xs = remove_at i xs"
proof (induction xs arbitrary: i)
  case Nil
  then show ?case by simp
next
  case (Cons x xs)
  then show ?case by (cases i) (auto simp add: remove_at_def)
qed

text \<open>
  Where \<open>delete_row\<close> is right: when no earlier task equals the one at the
  selected row, that row's task and handle are the ones removed.
\<close>

lemma delete_row_first_occurrence:
  assumes "paired st" "i < length (items (data st))" "writable (data st)"
    and "items (data st) ! i \<notin> set (take i (items (data st)))"
  shows "\<exists>st'. delete_row st i = Inr st' \<and>
               items (data st') = remove_at i (items (data st)) \<and>
               workers st' = remove_at i (workers st)"
  using assms
  by (auto simp add: delete_row_def remove_item_def dump_def paired_def remove1_nth_first
        Let_def)

lemma add_rows_dup_rows:
  "add_rows empty_form [(''r1'', ''cfg''), (''r2'', ''cfg''), (''r1'', ''cfg'')] = Inr dup_rows"
  by (simp add: add_row_def insert_row_def append_item_def dump_def empty_form_def
        dup_rows_def task_a_def task_b_def Let_def)

text \<open>
  C5 fails on the code.  With the tasks \<open>a, b, a\<close> in the store (the first and
  the third equal) and the third row selected, \<open>delete_row\<close> calls
  \<open>data.remove(data[2])\<close>, which removes the first task equal to \<open>data[2]\<close>: the
  one at position 0.  The store is left as \<open>b, a\<close>, where removing position 2
  leaves \<open>a, b\<close>; the handle and the table row are removed at position 2.
\<close>

theorem C5_delete_row_removes_first_equal:
  "add_rows empty_form [(''r1'', ''cfg''), (''r2'', ''cfg''), (''r1'', ''cfg'')] = Inr dup_rows \<and>
   items (data dup_rows) = [task_a, task_b, task_a] \<and>
   tasks_of (delete_row dup_rows 2) = Inr [task_b, task_a] \<and>
   remove_at 2 (items (data dup_rows)) = [task_a, task_b] \<and>
   task_a \<noteq> task_b"
proof -
  have "items (data dup_rows) = [task_a, task_b, task_a]"
    by (simp add: dup_rows_def)
  moreover have "tasks_of (delete_row dup_rows 2) = Inr [task_b, task_a]"
    by (simp add: dup_rows_def delete_row_def remove_at_def remove_item_def dump_def
          tasks_of_def task_a_neq_b Let_def)
  moreover have "remove_at 2 (items (data dup_rows)) = [task_a, task_b]"
    by (simp add: dup_rows_def remove_at_def)
  ultimately show ?thesis
    using add_rows_dup_rows task_a_neq_b(1) by blast
qed

text \<open>What \<open>_update_status\<close> changes, and when it returns.\<close>

lemma update_status_Inr:
  assumes "update_status st i s = Inr st'"
  shows "workers st' = workers st \<and> threads st' = threads st \<and>
         checkboxes st' = checkboxes st \<and>
         items (data st') = (items (data st))[i := (items (data st) ! i)\<lparr>status := s\<rparr>] \<and>
         i < length (items (data st))"
  using assms
  by (auto simp add: update_status_def update_row_def setitem_def dump_def Let_def
        split: if_splits sum.splits)

lemma update_status_returns:
  "i < length (items (data st)) \<Longrightarrow> i < length (checkboxes st) \<Longrightarrow>
   writable (data st) \<Longrightarrow> \<exists>st'. update_status st i s = Inr st'"
  by (auto simp add: update_status_def update_row_def setitem_def dump_def Let_def
        split: if_splits sum.splits)

lemma on_status_frame:
  assumes "on_status st wid s = Inr st'"
  shows "workers st' = workers st \<and> threads st' = threads st \<and>
         length (items (data st')) = length (items (data st)) \<and>
         (\<forall>j. j \<noteq> th_index (threads st ! wid) \<longrightarrow>
              items (data st') ! j = items (data st) ! j)"
proof (cases "wid < length (threads st)")
  case True
  with assms have "update_status st (th_index (threads st ! wid)) s = Inr st'"
    by (simp add: on_status_def)
  from update_status_Inr [OF this] show ?thesis by simp
next
  case False
  with assms show ?thesis by (simp add: on_status_def)
qed

lemma failure_is_failed:
  "fst (run_body w d) = Some e \<Longrightarrow>
   \<not> list_ex terminal (statuses (snd (run_body w d))) \<Longrightarrow>
   snd (run w d) = snd (run_body w d) @ [Log_exception, Emit ''Failed''] \<and>
   filter terminal (statuses (snd (run w d))) = [''Failed''] \<and>
   status_protocol (statuses (snd (run w d)))"
  by (auto simp add: run_def run_body_def Let_def statuses_append terminal_simps
        status_protocol_def split: sum.splits prod.splits if_splits)

lemma run_returns: "fst (run w d) = None"
  by (simp add: run_def split: prod.splits option.splits)

text \<open>
  C8.  No exception leaves \<open>run\<close>.  When an exception leaves the \<open>try\<close> block
  before a terminal status was emitted (the session lookups, the constructor,
  \<open>send_config_set\<close> or \<open>save_config\<close> raised), \<open>run\<close> logs it and emits
  \<open>Failed\<close>, the only terminal status of that run.  Delivering a status of a
  worker to the form changes no handle, no worker, and no task but the one at the
  position the worker is connected to.
\<close>

theorem C8_failure_contained:
  "fst (run w d) = None \<and>
   (fst (run_body w d) = Some e \<and>
    \<not> list_ex terminal (statuses (snd (run_body w d))) \<longrightarrow>
      snd (run w d) = snd (run_body w d) @ [Log_exception, Emit ''Failed''] \<and>
      filter terminal (statuses (snd (run w d))) = [''Failed''] \<and>
      status_protocol (statuses (snd (run w d)))) \<and>
   (on_status st wid ''Failed'' = Inr st' \<longrightarrow>
      workers st' = workers st \<and> threads st' = threads st \<and>
      length (items (data st')) = length (items (data st)) \<and>
      (\<forall>j. j \<noteq> th_index (threads st ! wid) \<longrightarrow>
           items (data st') ! j = items (data st) ! j))"
  using run_returns [of w d] failure_is_failed [of w d e]
    on_status_frame [of st wid "''Failed''" st']
  by blast

theorem C8_failure_contained_witness:
  "fst (run_body demo_worker (calm\<lparr>connect_ok := False\<rparr>)) = Some DeviceError \<and>
   \<not> list_ex terminal (statuses (snd (run_body demo_worker (calm\<lparr>connect_ok := False\<rparr>)))) \<and>
   fst (run demo_worker (calm\<lparr>connect_ok := False\<rparr>)) = None \<and>
   filter terminal (statuses (snd (run demo_worker (calm\<lparr>connect_ok := False\<rparr>)))) =
     [''Failed''] \<and>
   tasks_of (on_status (push dup_rows 1 ''r2'' ''cfg'') 0 ''Failed'') =
     Inr [task_a, task_b\<lparr>status := ''Failed''\<rparr>, task_a] \<and>
   workers (push dup_rows 1 ''r2'' ''cfg'') = [None, Some 0, None, None]"
proof -
  let ?d = "calm\<lparr>connect_ok := False\<rparr>"
  let ?st = "push dup_rows 1 ''r2'' ''cfg''"
  let ?ts = "[task_a, task_b\<lparr>status := ''Failed''\<rparr>, task_a]"
  let ?st' = "?st\<lparr>data := \<lparr>items = ?ts, disk = Some (json_dump ?ts), writable = True\<rparr>\<rparr>"
  have f: "flag_at demo_worker ?d 0 = False"
    by (simp add: flag_at_def calm_simps demo_worker_simps)
  have b: "run_body demo_worker ?d =
             (Some DeviceError,
              [Log_info (msg_attempting ''r1.example.com''), Emit ''Connecting'',
               Connect ''r1.example.com'' ''admin'' ''secret'' None])"
    by (simp add: run_body_def Let_def demo_args f demo_worker_simps)
  have t: "\<not> list_ex terminal (statuses (snd (run_body demo_worker ?d)))"
    by (simp add: b terminal_simps)
  have p: "?st = dup_rows\<lparr>threads := [spawned dup_rows 1 task_b],
                            workers := [None, Some 0, None, None]\<rparr>"
    by (simp add: push_def dup_rows_def insert_at_def spawned_def task_b_def Let_def)
  have o: "on_status ?st 0 ''Failed'' = Inr ?st'"
    unfolding p
    by (simp add: on_status_def update_status_def update_row_def setitem_def dump_def
          dup_rows_def spawned_def Let_def)
  from C8_failure_contained [of demo_worker ?d DeviceError ?st 0 ?st'] b t o
  have "fst (run demo_worker ?d) = None \<and>
        filter terminal (statuses (snd (run demo_worker ?d))) = [''Failed'']"
    by (simp add: terminal_simps)
  moreover from o have "tasks_of (on_status ?st 0 ''Failed'') = Inr ?ts"
    by (simp add: tasks_of_def)
  moreover from p have "workers ?st = [None, Some 0, None, None]"
    by simp
  ultimately show ?thesis using b t by simp
qed

lemma insert_at_nth: "i \<le> length xs \<Longrightarrow> insert_at i x xs ! i = x"
  by (simp add: insert_at_def nth_append)

text \<open>
  C4, as stated, fails.  Two pushes at position 0 of a one-row form: the handle at
  position 0 is the second worker (number 1), and the first worker (number 0) has
  been replaced there.  A \<open>Failed\<close> emitted by the first worker afterwards is
  still written to the task at position 0.
\<close>

theorem C4_late_event_counterexample:
  "workers (push (push one_row 0 ''r1'' ''cfg'') 0 ''r1'' ''cfg'') = [Some 1, Some 0, None] \<and>
   items (data (push (push one_row 0 ''r1'' ''cfg'') 0 ''r1'' ''cfg'')) = [task_a] \<and>
   status task_a = ''Pending'' \<and>
   tasks_of (on_status (push (push one_row 0 ''r1'' ''cfg'') 0 ''r1'' ''cfg'') 0 ''Failed'') =
     Inr [task_a\<lparr>status := ''Failed''\<rparr>]"
proof -
  have p: "push (push one_row 0 ''r1'' ''cfg'') 0 ''r1'' ''cfg'' =
             one_row\<lparr>threads := [spawned one_row 0 task_a, spawned one_row 0 task_a],
                      workers := [Some 1, Some 0, None]\<rparr>"
    by (simp add: push_one_row)
       (simp add: push_def one_row_def insert_at_def spawned_def task_a_def Let_def)
  have "tasks_of (on_status (push (push one_row 0 ''r1'' ''cfg'') 0 ''r1'' ''cfg'') 0 ''Failed'') =
          Inr [task_a\<lparr>status := ''Failed''\<rparr>]"
    by (simp add: p)
       (simp add: on_status_def update_status_def update_row_def setitem_def dump_def
          one_row_def spawned_def tasks_of_def Let_def)
  moreover have "status task_a = ''Pending''"
    by (simp add: task_a_def)
  ultimately show ?thesis
    by (simp add: p) (simp add: one_row_def)
qed

lemma add_rows_two_rows:
  "add_rows empty_form [(''r1'', ''cfg''), (''r2'', ''cfg'')] = Inr two_rows"
  by (simp add: add_row_def insert_row_def append_item_def dump_def empty_form_def
        two_rows_def task_a_def task_b_def Let_def)

text \<open>
  Past the end of the handle list \<open>insert\<close> appends: the new handle is then the
  last one, not the one at the position pushed.
\<close>

lemma push_past_end:
  "tgt \<noteq> [] \<Longrightarrow> cfg \<noteq> [] \<Longrightarrow> length (workers st) < index \<Longrightarrow>
   workers (push st index tgt cfg) = workers st @ [Some (length (threads st))]"
  by (simp add: push_def Let_def insert_at_def)

text \<open>
  Two rows added, Push All, then a push at row 0: the handle at position 1 is
  worker 0, which is connected to position 0, and worker 1, which is connected to
  position 1, sits at position 2.
\<close>

lemma busy_rows_eq:
  "push (push_all two_rows) 0 ''r1'' ''cfg'' =
     two_rows\<lparr>threads := [spawned two_rows 0 task_a, spawned two_rows 1 task_b,
                          spawned two_rows 0 task_a],
               workers := [Some 2, Some 0, Some 1, None, None]\<rparr>"
  by (simp add: push_all_def push_unless_pushed_def push_def two_rows_def insert_at_def
        spawned_def task_a_def task_b_def Let_def)

text \<open>
  C4, amended: when a push is started at a position to which a worker started
  earlier is connected, the new worker becomes the handle found at that position
  (the handle list reaching that far, as it does whenever it has an entry for each
  task), and a status the older worker emits afterwards is still applied to the task
  at the position: statuses are routed by the position a worker was connected to,
  whichever worker the handle list holds there.
\<close>

theorem C4_late_events_applied:
  assumes "tgt \<noteq> []" "cfg \<noteq> []"
    and "old < length (threads st)" "th_index (threads st ! old) = index"
    and "index < length (items (data st))" "index < length (checkboxes st)"
    and "writable (data st)"
  shows "(index \<le> length (workers st) \<longrightarrow>
           workers (push st index tgt cfg) ! index = Some (length (threads st))) \<and>
         old \<noteq> length (threads st) \<and>
         (\<exists>st'. on_status (push st index tgt cfg) old stat = Inr st' \<and>
                status (items (data st') ! index) = stat)"
proof -
  let ?st1 = "push st index tgt cfg"
  from assms(1,2) have h: "index \<le> length (workers st) \<Longrightarrow>
      workers ?st1 ! index = Some (length (threads st))"
    by (simp add: push_def Let_def insert_at_nth)
  from assms(1,2,3,4) have o: "old < length (threads ?st1)"
    "th_index (threads ?st1 ! old) = index"
    by (simp_all add: push_def Let_def nth_append)
  from assms(5,6,7) obtain st' where u: "update_status ?st1 index stat = Inr st'"
    using update_status_returns [of index ?st1 stat] by (auto simp add: push_frame)
  from update_status_Inr [OF u] assms(5)
  have "status (items (data st') ! index) = stat"
    by (simp add: push_frame)
  with u o have "\<exists>st'. on_status ?st1 old stat = Inr st' \<and>
                       status (items (data st') ! index) = stat"
    by (simp add: on_status_def)
  with h assms(3) show ?thesis by simp
qed

theorem C4_late_events_applied_witness:
  "add_rows empty_form [(''r1'', ''cfg''), (''r2'', ''cfg'')] = Inr two_rows \<and>
   workers (push (push_all two_rows) 0 ''r1'' ''cfg'') =
     [Some 2, Some 0, Some 1, None, None] \<and>
   map th_index (threads (push (push_all two_rows) 0 ''r1'' ''cfg'')) = [0, 1, 0] \<and>
   workers (push (push (push_all two_rows) 0 ''r1'' ''cfg'') 1 ''r2'' ''cfg'') ! 1 = Some 3 \<and>
   (\<exists>st'. on_status (push (push (push_all two_rows) 0 ''r1'' ''cfg'') 1 ''r2'' ''cfg'') 1
            ''Failed'' = Inr st' \<and>
          status (items (data st') ! 1) = ''Failed'')"
proof -
  let ?st = "push (push_all two_rows) 0 ''r1'' ''cfg''"
  have w: "workers ?st = [Some 2, Some 0, Some 1, None, None]"
    unfolding busy_rows_eq by simp
  have t: "map th_index (threads ?st) = [0, 1, 0]"
    unfolding busy_rows_eq by (simp add: spawned_def)
  have o: "(1::nat) < length (threads ?st)" "th_index (threads ?st ! 1) = 1"
    unfolding busy_rows_eq by (simp_all add: spawned_def)
  have q: "(1::nat) < length (items (data ?st))" "(1::nat) < length (checkboxes ?st)"
    "writable (data ?st)" "(1::nat) \<le> length (workers ?st)" "length (threads ?st) = 3"
    unfolding busy_rows_eq by (simp_all add: two_rows_def)
  have n: "''r2'' \<noteq> []" "''cfg'' \<noteq> []"
    by simp_all
  from C4_late_events_applied [OF n o q(1,2,3), of "''Failed''"] q(4,5)
  have "workers (push ?st 1 ''r2'' ''cfg'') ! 1 = Some 3 \<and>
        (\<exists>st'. on_status (push ?st 1 ''r2'' ''cfg'') 1 ''Failed'' = Inr st' \<and>
               status (items (data st') ! 1) = ''Failed'')"
    by simp
  with add_rows_two_rows w t show ?thesis by blast
qed

lemma push_unless_pushed_frame:
  "data (push_unless_pushed s j cd) = data s"
  "checkboxes (push_unless_pushed s j cd) = checkboxes s"
  "form_session (push_unless_pushed s j cd) = form_session s"
  by (simp_all add: push_unless_pushed_def push_frame)

text \<open>One pass of the loop body: at most one worker, connected to the pass's position.\<close>

lemma push_unless_pushed_threads:
  "threads (push_unless_pushed s j cd) =
     threads s @ (if pushable cd then [spawned s j cd] else [])"
  by (simp add: push_unless_pushed_def push_def Let_def pushable_def spawned_def)

lemma bound_to_append: "bound_to i (xs @ ys) = bound_to i xs @ bound_to i ys"
  by (simp add: bound_to_def)

lemma bound_to_spawned:
  "bound_to i [spawned s j cd] = (if j = i then [spawned s i cd] else [])"
  by (simp add: bound_to_def spawned_def)

lemma bound_to_pass:
  "bound_to i (threads (push_unless_pushed s j cd)) =
     bound_to i (threads s) @ (if j = i \<and> pushable cd then [spawned s i cd] else [])"
  by (simp add: push_unless_pushed_threads bound_to_append bound_to_spawned)
     (simp add: bound_to_def)

lemma prefix_pass: "prefix (threads s) (threads (push_unless_pushed s j cd))"
  by (simp add: push_unless_pushed_threads)


lemma fold_push_frame:
  "data (fold (\<lambda>(index, cd) s. push_unless_pushed s index cd) ps s) = data s \<and>
   checkboxes (fold (\<lambda>(index, cd) s. push_unless_pushed s index cd) ps s) = checkboxes s \<and>
   form_session (fold (\<lambda>(index, cd) s. push_unless_pushed s index cd) ps s) =
     form_session s \<and>
   prefix (threads s) (threads (fold (\<lambda>(index, cd) s. push_unless_pushed s index cd) ps s))"
proof (induction ps arbitrary: s)
  case Nil
  then show ?case by simp
next
  case (Cons p ps)
  obtain j cd where p: "p = (j, cd)" by (cases p)
  from Cons.IH [of "push_unless_pushed s j cd"] prefix_pass [of s j cd]
  show ?case
    by (simp add: p push_unless_pushed_frame) (meson prefix_order.trans)
qed

lemma fold_push_bound_to:
  "bound_to i (threads (fold (\<lambda>(index, cd) s. push_unless_pushed s index cd)
                          (enumerate n xs) s)) =
     bound_to i (threads s) @
     (if n \<le> i \<and> i < n + length xs \<and> pushable (xs ! (i - n))
      then [spawned s i (xs ! (i - n))] else [])"
proof (induction xs arbitrary: n s)
  case Nil
  then show ?case by simp
next
  case (Cons x xs)
  let ?f = "\<lambda>(index, cd) s. push_unless_pushed s index cd"
  let ?s1 = "push_unless_pushed s n x"
  have sp: "spawned ?s1 i = spawned s i"
    by (rule ext) (simp add: spawned_def push_unless_pushed_frame)
  have step: "bound_to i (threads (fold ?f (enumerate n (x # xs)) s)) =
        (bound_to i (threads s) @ (if n = i \<and> pushable x then [spawned s i x] else [])) @
        (if Suc n \<le> i \<and> i < Suc n + length xs \<and> pushable (xs ! (i - Suc n))
         then [spawned s i (xs ! (i - Suc n))] else [])"
    using Cons.IH [of "Suc n" ?s1] by (simp add: bound_to_pass sp)
  show ?case
  proof (cases "n = i")
    case True
    with step show ?thesis by simp
  next
    case False
    show ?thesis
    proof (cases "n \<le> i")
      case True
      with False have "i - n = Suc (i - Suc n)" by arith
      then have "(x # xs) ! (i - n) = xs ! (i - Suc n)" by simp
      with step False True show ?thesis by simp
    next
      case False
      with step show ?thesis by simp
    qed
  qed
qed

lemma bound_to_started:
  assumes "prefix (threads st) (threads st')"
    and "bound_to i (threads st') = bound_to i (threads st) @ zs"
  shows "bound_to i (started st st') = zs"
proof -
  from assms(1) have "threads st' = threads st @ started st st'"
    by (auto simp add: started_def prefix_def)
  then have "bound_to i (threads st') = bound_to i (threads st) @ bound_to i (started st st')"
    by (metis bound_to_append)
  with assms(2) show ?thesis by simp
qed

lemma push_all_started:
  "data (push_all st) = data st \<and>
   bound_to i (started st (push_all st)) =
     (if i < length (items (data st)) \<and> pushable (items (data st) ! i)
      then [spawned st i (items (data st) ! i)] else [])"
proof -
  let ?f = "\<lambda>(index, cd) s. push_unless_pushed s index cd"
  from fold_push_frame [of "enumerate 0 (items (data st))" st]
  have d: "data (push_all st) = data st" and p: "prefix (threads st) (threads (push_all st))"
    by (simp_all add: push_all_def)
  from fold_push_bound_to [of i 0 "items (data st)" st]
  have "bound_to i (threads (push_all st)) =
     bound_to i (threads st) @
     (if i < length (items (data st)) \<and> pushable (items (data st) ! i)
      then [spawned st i (items (data st) ! i)] else [])"
    by (simp add: push_all_def cong: if_cong)
  from bound_to_started [OF p this] d show ?thesis by simp
qed


lemma push_rows_frame:
  "push_rows s rows = Inr s' \<Longrightarrow>
   data s' = data s \<and> checkboxes s' = checkboxes s \<and>
   form_session s' = form_session s \<and> prefix (threads s) (threads s')"
proof (induction rows arbitrary: s)
  case Nil
  then show ?case by simp
next
  case (Cons j rows)
  let ?s1 = "push_unless_pushed s j (items (data s) ! j)"
  from Cons.prems have "push_rows ?s1 rows = Inr s'"
    by (simp split: if_splits)
  from Cons.IH [OF this] prefix_pass [of s j "items (data s) ! j"]
  show ?case
    by (simp add: push_unless_pushed_frame) (meson prefix_order.trans)
qed

lemma push_rows_bound_to:
  "distinct rows \<Longrightarrow> push_rows s rows = Inr s' \<Longrightarrow>
   bound_to i (threads s') =
     bound_to i (threads s) @
     (if i \<in> set rows \<and> pushable (items (data s) ! i)
      then [spawned s i (items (data s) ! i)] else [])"
proof (induction rows arbitrary: s)
  case Nil
  then show ?case by simp
next
  case (Cons j rows)
  let ?s1 = "push_unless_pushed s j (items (data s) ! j)"
  from Cons.prems(2) have r: "push_rows ?s1 rows = Inr s'"
    by (simp split: if_splits)
  from Cons.prems(1) have dr: "distinct rows" and jr: "j \<notin> set rows"
    by simp_all
  have sp: "spawned ?s1 i = spawned s i"
    by (rule ext) (simp add: spawned_def push_unless_pushed_frame)
  have step: "bound_to i (threads s') =
        (bound_to i (threads s) @
         (if j = i \<and> pushable (items (data s) ! j) then [spawned s i (items (data s) ! j)]
          else [])) @
        (if i \<in> set rows \<and> pushable (items (data s) ! i)
         then [spawned s i (items (data s) ! i)] else [])"
    using Cons.IH [OF dr r] by (simp add: bound_to_pass sp push_unless_pushed_frame)
  show ?case
  proof (cases "j = i")
    case True
    with step jr show ?thesis by simp
  next
    case False
    with step show ?thesis by simp
  qed
qed

lemma push_rows_returns:
  "\<forall>j \<in> set rows. j < length (items (data s)) \<Longrightarrow> \<exists>s'. push_rows s rows = Inr s'"
  by (induction rows arbitrary: s) (simp_all add: push_unless_pushed_frame)

lemma push_selected_started:
  assumes "push_selected st selected = Inr st'"
  shows "data st' = data st \<and>
   bound_to i (started st st') =
     (if i \<in> set selected \<and> pushable (items (data st) ! i)
      then [spawned st i (items (data st) ! i)] else [])"
proof -
  from assms have r: "push_rows st (remdups selected) = Inr st'"
    by (simp add: push_selected_def)
  from push_rows_frame [OF r]
  have d: "data st' = data st" and p: "prefix (threads st) (threads st')"
    by simp_all
  from push_rows_bound_to [OF _ r, of i]
  have "bound_to i (threads st') =
     bound_to i (threads st) @
     (if i \<in> set selected \<and> pushable (items (data st) ! i)
      then [spawned st i (items (data st) ! i)] else [])"
    by simp
  from bound_to_started [OF p this] d show ?thesis by simp
qed

lemma push_selected_returns:
  "\<forall>j \<in> set selected. j < length (items (data st)) \<Longrightarrow>
   \<exists>st'. push_selected st selected = Inr st'"
  using push_rows_returns [of "remdups selected" st] by (simp add: push_selected_def)

text \<open>
  C9.  \<open>push_all\<close> and \<open>push_selected\<close> leave the store as it is (no status
  changes while they run).  At a position whose task has status \<open>Pushed\<close> they
  start no worker.  At a position with any other status (a selected one, for
  \<open>push_selected\<close>) whose task has a target and a config, as every task of the
  data model has, they start exactly one worker, built from that task and connected
  to that position.  \<open>push_selected\<close> returns whenever the selected rows exist.
\<close>

theorem C9_pushed_is_skipped:
  "data (push_all st) = data st \<and>
   (status (items (data st) ! i) = ''Pushed'' \<longrightarrow>
      bound_to i (started st (push_all st)) = []) \<and>
   (i < length (items (data st)) \<and> pushable (items (data st) ! i) \<longrightarrow>
      bound_to i (started st (push_all st)) = [spawned st i (items (data st) ! i)]) \<and>
   (push_selected st selected = Inr st' \<longrightarrow>
      data st' = data st \<and>
      (status (items (data st) ! i) = ''Pushed'' \<longrightarrow> bound_to i (started st st') = []) \<and>
      (i \<in> set selected \<and> pushable (items (data st) ! i) \<longrightarrow>
         bound_to i (started st st') = [spawned st i (items (data st) ! i)])) \<and>
   ((\<forall>j \<in> set selected. j < length (items (data st))) \<longrightarrow>
      (\<exists>st''. push_selected st selected = Inr st''))"
proof -
  have n: "status (items (data st) ! i) = ''Pushed'' \<Longrightarrow> \<not> pushable (items (data st) ! i)"
    by (simp add: pushable_def)
  have a: "data (push_all st) = data st"
    using push_all_started [of st i] by simp
  have b: "status (items (data st) ! i) = ''Pushed'' \<longrightarrow>
           bound_to i (started st (push_all st)) = []"
    using push_all_started [of st i] n by simp
  have c: "i < length (items (data st)) \<and> pushable (items (data st) ! i) \<longrightarrow>
      bound_to i (started st (push_all st)) = [spawned st i (items (data st) ! i)]"
    using push_all_started [of st i] by simp
  have d: "push_selected st selected = Inr st' \<longrightarrow>
      data st' = data st \<and>
      (status (items (data st) ! i) = ''Pushed'' \<longrightarrow> bound_to i (started st st') = []) \<and>
      (i \<in> set selected \<and> pushable (items (data st) ! i) \<longrightarrow>
         bound_to i (started st st') = [spawned st i (items (data st) ! i)])"
  proof
    assume "push_selected st selected = Inr st'"
    from push_selected_started [OF this, of i] n show
      "data st' = data st \<and>
      (status (items (data st) ! i) = ''Pushed'' \<longrightarrow> bound_to i (started st st') = []) \<and>
      (i \<in> set selected \<and> pushable (items (data st) ! i) \<longrightarrow>
         bound_to i (started st st') = [spawned st i (items (data st) ! i)])"
      by simp
  qed
  have e: "(\<forall>j \<in> set selected. j < length (items (data st))) \<longrightarrow>
      (\<exists>st''. push_selected st selected = Inr st'')"
    using push_selected_returns [of selected st] by blast
  from a b c d e show ?thesis by blast
qed

theorem C9_pushed_is_skipped_witness:
  "status (items (data mixed_rows) ! 1) = ''Pushed'' \<and>
   pushable (items (data mixed_rows) ! 0) \<and>
   data (push_all mixed_rows) = data mixed_rows \<and>
   bound_to 1 (started mixed_rows (push_all mixed_rows)) = [] \<and>
   bound_to 0 (started mixed_rows (push_all mixed_rows)) = [spawned mixed_rows 0 task_a] \<and>
   push_selected mixed_rows [1, 0, 1] = Inr (push mixed_rows 0 ''r1'' ''cfg'') \<and>
   bound_to 1 (started mixed_rows (push mixed_rows 0 ''r1'' ''cfg'')) = [] \<and>
   bound_to 0 (started mixed_rows (push mixed_rows 0 ''r1'' ''cfg'')) =
     [spawned mixed_rows 0 task_a]"
proof -
  have i: "items (data mixed_rows) = [task_a, task_b\<lparr>status := ''Pushed''\<rparr>]"
    by (simp add: mixed_rows_def)
  have s1: "status (items (data mixed_rows) ! 1) = ''Pushed''"
    by (simp add: i)
  have p0: "pushable (items (data mixed_rows) ! 0)"
    by (simp add: i pushable_def task_a_def)
  have sel: "push_selected mixed_rows [1, 0, 1] = Inr (push mixed_rows 0 ''r1'' ''cfg'')"
    by (simp add: push_selected_def push_unless_pushed_def push_frame i)
       (simp add: task_a_def)
  from C9_pushed_is_skipped
    [of mixed_rows 1 "[1, 0, 1]" "push mixed_rows 0 ''r1'' ''cfg''"] s1 sel
  have a: "data (push_all mixed_rows) = data mixed_rows \<and>
           bound_to 1 (started mixed_rows (push_all mixed_rows)) = [] \<and>
           bound_to 1 (started mixed_rows (push mixed_rows 0 ''r1'' ''cfg'')) = []"
    by simp
  from C9_pushed_is_skipped
    [of mixed_rows 0 "[1, 0, 1]" "push mixed_rows 0 ''r1'' ''cfg''"] p0 sel
  have b: "bound_to 0 (started mixed_rows (push_all mixed_rows)) =
             [spawned mixed_rows 0 task_a] \<and>
           bound_to 0 (started mixed_rows (push mixed_rows 0 ''r1'' ''cfg'')) =
             [spawned mixed_rows 0 task_a]"
    by (simp add: i)
  from s1 p0 sel a b show ?thesis by simp
qed

end
